theory Spec2Isabelle
  imports Complex_Main "HOL-Library.AList"
begin

section \<open>JavaScript values and \<open>Object.is\<close>\<close>

text \<open>
  The values a store holds are JavaScript values. A Number is NaN, one of the two zeros,
  one of the two infinities, or a finite number other than zero. An object is its
  reference.
\<close>

datatype number = NaN | PlusZero | MinusZero | PlusInfinity | MinusInfinity | Finite rat

datatype jsval = Undefined | Null | Boolean bool | Number number | String string | Object nat

text \<open>
  \<open>Object.is(x, y)\<close> is the SameValue algorithm of ECMAScript: values of different types
  are different; two Numbers are the same when both are NaN, are different when they
  are zeros of opposite sign, and otherwise are the same when they are the same Number
  value; strings, booleans and object references are compared as such.
\<close>

fun Object_is :: "jsval \<Rightarrow> jsval \<Rightarrow> bool" where
  "Object_is (Number x) (Number y) =
     (if x = NaN \<and> y = NaN then True
      else if x = PlusZero \<and> y = MinusZero then False
      else if x = MinusZero \<and> y = PlusZero then False
      else x = y)"
| "Object_is Undefined Undefined = True"
| "Object_is Null Null = True"
| "Object_is (String x) (String y) = (x = y)"
| "Object_is (Boolean x) (Boolean y) = (x = y)"
| "Object_is (Object x) (Object y) = (x = y)"
| "Object_is _ _ = False"

section \<open>Notifier\<close>

text \<open>
  A listener is a callback of the host framework; it is known by the identity of its
  function object. The \<open>Set\<close> of listeners is kept as the list of its members in insertion
  order, which is the order \<open>Set.prototype.forEach\<close> visits them in: \<open>add\<close> of a member
  leaves the set as it is, \<open>add\<close> of a new value appends it, \<open>delete\<close> removes it.
\<close>

type_synonym listener = nat

definition Set_add :: "'a \<Rightarrow> 'a list \<Rightarrow> 'a list" where
  "Set_add x xs = (if x \<in> set xs then xs else xs @ [x])"

definition Set_delete :: "'a \<Rightarrow> 'a list \<Rightarrow> 'a list" where
  "Set_delete x xs = removeAll x xs"

record Notifier =
  alive :: bool
  listeners :: "listener list"
  val :: jsval

text \<open>
  What a listener call leaves behind: the listener, the argument it was called with, and
  the value the Notifier held at the moment of the call (what the listener would get
  from \<open>read()\<close>). The bodies of the listeners belong to the host framework and do not
  call back into the Notifier while the loop runs.
\<close>

datatype event =
    ListenerCall listener jsval jsval
  | StoreRead nat
  | StoreSubscribe nat
  | StoreUnsubscribe nat

definition Notifier_new :: "jsval \<Rightarrow> Notifier" where
  "Notifier_new v = \<lparr>alive = True, listeners = [], val = v\<rparr>"

definition Notifier_subscribe :: "listener \<Rightarrow> Notifier \<Rightarrow> Notifier" where
  "Notifier_subscribe l n =
     (if alive n then n\<lparr>listeners := Set_add l (listeners n)\<rparr> else n)"

text \<open>The closure that \<open>subscribe(listener)\<close> returns.\<close>

definition Notifier_unsubscribe :: "listener \<Rightarrow> Notifier \<Rightarrow> Notifier" where
  "Notifier_unsubscribe l n =
     (if alive n then n\<lparr>listeners := Set_delete l (listeners n)\<rparr> else n)"

definition Notifier_notify :: "jsval \<Rightarrow> Notifier \<Rightarrow> Notifier \<times> event list" where
  "Notifier_notify v n =
     (if alive n then
        (let n' = n\<lparr>val := v\<rparr>
         in (n', map (\<lambda>l. ListenerCall l v (val n')) (listeners n')))
      else (n, []))"

definition Notifier_destroy :: "Notifier \<Rightarrow> Notifier" where
  "Notifier_destroy n = (if alive n then n\<lparr>listeners := [], alive := False\<rparr> else n)"

definition Notifier_read :: "Notifier \<Rightarrow> jsval" where
  "Notifier_read n = val n"

definition Notifier_hasListeners :: "Notifier \<Rightarrow> bool" where
  "Notifier_hasListeners n = (length (listeners n) > 0)"

text \<open>A sequence of calls on one Notifier, with the events it leaves.\<close>

datatype Notifier_op =
    Subscribe listener
  | Unsubscribe listener
  | Notify jsval
  | Destroy
  | Read
  | HasListeners

fun Notifier_step :: "Notifier_op \<Rightarrow> Notifier \<Rightarrow> Notifier" where
  "Notifier_step (Subscribe l) n = Notifier_subscribe l n"
| "Notifier_step (Unsubscribe l) n = Notifier_unsubscribe l n"
| "Notifier_step (Notify v) n = fst (Notifier_notify v n)"
| "Notifier_step Destroy n = Notifier_destroy n"
| "Notifier_step Read n = n"
| "Notifier_step HasListeners n = n"

definition Notifier_run :: "Notifier_op list \<Rightarrow> Notifier \<Rightarrow> Notifier" where
  "Notifier_run ops n = fold Notifier_step ops n"

text \<open>
  The value last handed to \<open>notify\<close> before the first \<open>destroy\<close> of a sequence of calls,
  and the seed if there is none.
\<close>

fun is_Notify :: "Notifier_op \<Rightarrow> bool" where
  "is_Notify (Notify v) = True"
| "is_Notify _ = False"

fun Notify_arg :: "Notifier_op \<Rightarrow> jsval" where
  "Notify_arg (Notify v) = v"
| "Notify_arg _ = Undefined"

definition last_notified :: "jsval \<Rightarrow> Notifier_op list \<Rightarrow> jsval" where
  "last_notified seed ops =
     last (seed # map Notify_arg (filter is_Notify (takeWhile (\<lambda>x. x \<noteq> Destroy) ops)))"

section \<open>Store descriptors\<close>

text \<open>
  A store is an external cell with a list of subscribed callbacks, as the Redux stores of
  the tests and the README are. The \<open>read\<close> of a descriptor returns the present value of
  the cell \<open>source\<close>; its \<open>subscribe\<close> adds the callback to the cell's list and returns a
  teardown function or, when \<open>returnsUnsubscribe\<close> is false, \<open>undefined\<close>.
\<close>

record StoreAdapterBase =
  source :: nat
  returnsUnsubscribe :: bool

record StoreAdapterOptions = StoreAdapterBase +
  opt_id :: "string option"
  opt_shouldUpdate :: "(jsval \<Rightarrow> jsval \<Rightarrow> bool) option"
  opt_keepAlive :: "bool option"

text \<open>
  \<open>ref\<close> is the identity of the descriptor object. The interface of
  \<open>src/StoreAdapter.tsx\<close> declares no \<open>keepAlive\<close>: there the object spread copies the
  property when the options carry it, and nothing reads it. The interface of the
  variant built on \<open>react-scoped-model\<close> declares it, with the default \<open>false\<close>.
\<close>

record StoreAdapter = StoreAdapterBase +
  ref :: nat
  store_id :: string
  shouldUpdate :: "jsval \<Rightarrow> jsval \<Rightarrow> bool"
  keepAlive :: bool

function decimal :: "nat \<Rightarrow> string" where
  "decimal n =
     (if n < 10 then [''0123456789'' ! n]
      else decimal (n div 10) @ [''0123456789'' ! (n mod 10)])"
  by pat_completeness auto
termination
  by (relation "measure id") auto

declare decimal.simps [simp del]

definition defaultUpdate :: "jsval \<Rightarrow> jsval \<Rightarrow> bool" where
  "defaultUpdate prev next = (\<not> Object_is prev next)"

text \<open>
  \<open>createStoreAdapter\<close>, with the module's counter \<open>index\<close> passed in and returned.
  \<open>getIndex()\<close> runs on every call, also when the options carry an id, so the counter
  value names the created object. A property of the options that is present replaces
  the default; an omitted one leaves it.
\<close>

definition getIndex :: "nat \<Rightarrow> nat \<times> nat" where
  "getIndex index = (index, index + 1)"

definition createStoreAdapter :: "StoreAdapterOptions \<Rightarrow> nat \<Rightarrow> StoreAdapter \<times> nat" where
  "createStoreAdapter options index =
     (let (current, index') = getIndex index
      in (\<lparr>source = source options,
           returnsUnsubscribe = returnsUnsubscribe options,
           ref = current,
           store_id = (case opt_id options of None \<Rightarrow> ''Store-'' @ decimal current | Some i \<Rightarrow> i),
           shouldUpdate = (case opt_shouldUpdate options of None \<Rightarrow> defaultUpdate | Some f \<Rightarrow> f),
           keepAlive = (case opt_keepAlive options of None \<Rightarrow> False | Some k \<Rightarrow> k)\<rparr>,
          index'))"

section \<open>The state of a root and of the stores around it\<close>

text \<open>
  The closures of the source are data. \<open>CheckForUpdates store a\<close> is the
  \<open>checkForUpdates\<close> made for \<open>store\<close> and the instance object at address \<open>a\<close>;
  \<open>NotifyThunk a v\<close> is \<open>() => instance.notifier.notify(nextValue)\<close>; \<open>Teardown r h\<close> is
  the function that the \<open>subscribe\<close> of descriptor \<open>r\<close> returned for its subscription
  \<open>h\<close>. A timer is a callback handed to \<open>setTimeout\<close>.
\<close>

datatype callback = CheckForUpdates StoreAdapter nat

datatype thunk = NotifyThunk nat jsval

datatype teardown = Teardown nat nat

datatype timer = DeferUpdate thunk | DeferStoresVersion

record StoreAdapterMemory =
  notifier :: Notifier
  unsubscribe :: "teardown option"

text \<open>
  \<open>cells\<close>, \<open>upstream\<close>, \<open>handles\<close> are the stores; \<open>trace\<close> records the calls of the
  stores' functions and of the listeners; \<open>timers\<close> is the macrotask queue.
  \<open>provider\<close> says that a \<open>StoreAdapterContext.Provider\<close> stands above the consumer,
  \<open>contextRef_current\<close> that the core has stored its context object in the reference.
  The instance objects live in \<open>heap\<close>; \<open>memory\<close> is the \<open>Map\<close> from store id to
  instance, in insertion order. \<open>registered\<close> belongs to the scoped-model variant only.
  A state setter called with a fresh array raises the version it sets.
\<close>

record state =
  cells :: "nat \<Rightarrow> jsval"
  upstream :: "(nat \<times> nat \<times> callback) list"
  handles :: nat
  trace :: "event list"
  timers :: "timer list"
  provider :: bool
  contextRef_current :: bool
  isMounted :: bool
  nextAddr :: nat
  heap :: "nat \<Rightarrow> StoreAdapterMemory"
  memory :: "(string \<times> nat) list"
  registered :: "nat set"
  pendingStores :: "StoreAdapter list"
  pendingStoresVersion :: nat
  pendingUpdates :: "thunk list"
  pendingUpdatesVersion :: nat

definition store_read :: "StoreAdapter \<Rightarrow> state \<Rightarrow> jsval \<times> state" where
  "store_read store st =
     (cells st (source store), st\<lparr>trace := trace st @ [StoreRead (ref store)]\<rparr>)"

definition store_subscribe :: "StoreAdapter \<Rightarrow> callback \<Rightarrow> state \<Rightarrow> teardown option \<times> state" where
  "store_subscribe store cb st =
     (let h = handles st
      in (if returnsUnsubscribe store then Some (Teardown (ref store) h) else None,
          st\<lparr>upstream := upstream st @ [(h, source store, cb)],
             handles := h + 1,
             trace := trace st @ [StoreSubscribe (ref store)]\<rparr>))"

fun teardown_call :: "teardown \<Rightarrow> state \<Rightarrow> state" where
  "teardown_call (Teardown r h) st =
     st\<lparr>upstream := filter (\<lambda>(h', s, cb). h' \<noteq> h) (upstream st),
        trace := trace st @ [StoreUnsubscribe r]\<rparr>"

definition update_notifier :: "nat \<Rightarrow> (Notifier \<Rightarrow> Notifier) \<Rightarrow> state \<Rightarrow> state" where
  "update_notifier a f st =
     st\<lparr>heap := (heap st)(a := (heap st a)\<lparr>notifier := f (notifier (heap st a))\<rparr>)\<rparr>"

section \<open>StoreAdapterCore of \<open>src/StoreAdapter.tsx\<close>\<close>

definition batchUpdates :: "thunk \<Rightarrow> state \<Rightarrow> state" where
  "batchUpdates cb st = st\<lparr>timers := timers st @ [DeferUpdate cb]\<rparr>"

definition checkForUpdates :: "StoreAdapter \<Rightarrow> nat \<Rightarrow> state \<Rightarrow> state" where
  "checkForUpdates store a st =
     (if isMounted st then
        (let (nextValue, st1) = store_read store st
         in if shouldUpdate store (Notifier_read (notifier (heap st1 a))) nextValue
            then batchUpdates (NotifyThunk a nextValue) st1
            else st1)
      else st)"

fun callback_call :: "callback \<Rightarrow> state \<Rightarrow> state" where
  "callback_call (CheckForUpdates store a) st = checkForUpdates store a st"

text \<open>The timers fire in the order they were set (\<open>jest.runAllTimers\<close>).\<close>

fun timer_fire :: "timer \<Rightarrow> state \<Rightarrow> state" where
  "timer_fire (DeferUpdate cb) st =
     (if isMounted st
      then st\<lparr>pendingUpdates := pendingUpdates st @ [cb],
              pendingUpdatesVersion := pendingUpdatesVersion st + 1\<rparr>
      else st)"
| "timer_fire DeferStoresVersion st =
     (if isMounted st
      then st\<lparr>pendingStoresVersion := pendingStoresVersion st + 1\<rparr>
      else st)"

definition runAllTimers :: "state \<Rightarrow> state" where
  "runAllTimers st = fold timer_fire (timers st) (st\<lparr>timers := []\<rparr>)"

text \<open>The body of the \<open>forEach\<close> of the effect that registers the pending stores.\<close>

definition registerStore :: "StoreAdapter \<Rightarrow> state \<Rightarrow> state" where
  "registerStore store st =
     (case map_of (memory st) (store_id store) of
        None \<Rightarrow> st
      | Some a \<Rightarrow>
          (let (unsub, st1) = store_subscribe store (CheckForUpdates store a) st;
               st2 = checkForUpdates store a st1
           in case unsub of
                None \<Rightarrow> st2
              | Some t \<Rightarrow> st2\<lparr>heap := (heap st2)(a := (heap st2 a)\<lparr>unsubscribe := Some t\<rparr>)\<rparr>))"

definition flushPendingStores :: "state \<Rightarrow> state" where
  "flushPendingStores st =
     (let batch = pendingStores st
      in if length batch \<noteq> 0
         then fold registerStore batch (st\<lparr>pendingStores := []\<rparr>)
         else st)"

fun thunk_call :: "thunk \<Rightarrow> state \<Rightarrow> state" where
  "thunk_call (NotifyThunk a v) st =
     (let (n', calls) = Notifier_notify v (notifier (heap st a))
      in st\<lparr>heap := (heap st)(a := (heap st a)\<lparr>notifier := n'\<rparr>),
            trace := trace st @ calls\<rparr>)"

definition runUpdate :: "thunk \<Rightarrow> state \<Rightarrow> state" where
  "runUpdate update st = (if isMounted st then thunk_call update st else st)"

definition flushPendingUpdates :: "state \<Rightarrow> state" where
  "flushPendingUpdates st =
     (let batch = pendingUpdates st
      in if length batch \<noteq> 0
         then fold runUpdate batch (st\<lparr>pendingUpdates := []\<rparr>)
         else st)"

text \<open>Unmounting the root: the cleanups of the effects, in the order of the effects.\<close>

definition cleanup_item :: "nat \<Rightarrow> state \<Rightarrow> state" where
  "cleanup_item a st =
     (let st1 = (case unsubscribe (heap st a) of None \<Rightarrow> st | Some t \<Rightarrow> teardown_call t st)
      in update_notifier a Notifier_destroy st1)"

definition unmount :: "state \<Rightarrow> state" where
  "unmount st =
     (let st1 = st\<lparr>isMounted := False\<rparr>;
          st2 = fold cleanup_item (map snd (memory st1)) st1
      in st2\<lparr>memory := []\<rparr>)"

definition getInstance :: "StoreAdapter \<Rightarrow> state \<Rightarrow> nat \<times> state" where
  "getInstance store st =
     (case map_of (memory st) (store_id store) of
        Some a \<Rightarrow> (a, st)
      | None \<Rightarrow>
          (let (v, st1) = store_read store st;
               a = nextAddr st1;
               st2 = st1\<lparr>nextAddr := a + 1,
                         heap := (heap st1)(a := \<lparr>notifier = Notifier_new v, unsubscribe = None\<rparr>)\<rparr>
           in (a, if isMounted st2
                  then st2\<lparr>memory := AList.update (store_id store) a (memory st2)\<rparr>
                  else st2)))"

definition context_register :: "StoreAdapter \<Rightarrow> state \<Rightarrow> state" where
  "context_register store st =
     (if isMounted st
      then st\<lparr>pendingStores := pendingStores st @ [store],
              pendingStoresVersion := pendingStoresVersion st + 1\<rparr>
      else st)"

definition context_read :: "StoreAdapter \<Rightarrow> state \<Rightarrow> jsval \<times> state" where
  "context_read store st =
     (let (a, st1) = getInstance store st
      in (Notifier_read (notifier (heap st1 a)), st1))"

text \<open>
  \<open>context_subscribe\<close> returns the address of the instance that the returned closure
  holds; \<open>context_unsubscribe store a callback\<close> is that closure.
\<close>

definition context_subscribe :: "StoreAdapter \<Rightarrow> listener \<Rightarrow> state \<Rightarrow> nat \<times> state" where
  "context_subscribe store callback st =
     (let (a, st1) = getInstance store st
      in (a, update_notifier a (Notifier_subscribe callback) st1))"

definition evict :: "StoreAdapter \<Rightarrow> nat \<Rightarrow> state \<Rightarrow> state" where
  "evict store a st =
     (let st1 = (case unsubscribe (heap st a) of None \<Rightarrow> st | Some t \<Rightarrow> teardown_call t st);
          st2 = update_notifier a Notifier_destroy st1
      in st2\<lparr>memory := AList.delete (store_id store) (memory st2)\<rparr>)"

definition context_unsubscribe :: "StoreAdapter \<Rightarrow> nat \<Rightarrow> listener \<Rightarrow> state \<Rightarrow> state" where
  "context_unsubscribe store a callback st =
     (let st1 = update_notifier a (Notifier_unsubscribe callback) st
      in if \<not> Notifier_hasListeners (notifier (heap st1 a))
         then evict store a st1
         else st1)"

section \<open>The consumption hook and the root of \<open>src/StoreAdapter.tsx\<close>\<close>

datatype error = MissingContextReference | MissingContext

text \<open>
  \<open>useContext(StoreAdapterContext)\<close> gives the reference of the nearest provider, or
  \<open>undefined\<close> when there is none. The reference is returned as what it holds: whether
  \<open>current\<close> is set.
\<close>

definition useStoreAdapterContextRef :: "state \<Rightarrow> error + bool" where
  "useStoreAdapterContextRef st =
     (if provider st then Inr (contextRef_current st) else Inl MissingContextReference)"

definition useStoreAdapterContext :: "state \<Rightarrow> error + unit" where
  "useStoreAdapterContext st =
     (case useStoreAdapterContextRef st of
        Inl e \<Rightarrow> Inl e
      | Inr current \<Rightarrow> if current then Inr () else Inl MissingContext)"

definition identity :: "jsval \<Rightarrow> jsval" where
  "identity v = v"

record UseStoreAdapterOptions =
  getSnapshot :: "(jsval \<Rightarrow> jsval) option"
  use_shouldUpdate :: "(jsval \<Rightarrow> jsval \<Rightarrow> bool) option"

text \<open>
  The render of \<open>useStoreAdapter\<close>. \<open>useSubscription\<close> belongs to the hooks library; it
  calls the \<open>read\<close> of the subscription during the render and returns its value, and
  the \<open>shouldUpdate\<close> of the options only tells it when to render again. The effects
  of the hook (\<open>context.register(store)\<close>, then the \<open>subscribe\<close> of the subscription)
  run after the commit, through \<open>context_register\<close> and \<open>context_subscribe\<close>.
\<close>

definition useStoreAdapter ::
  "StoreAdapter \<Rightarrow> UseStoreAdapterOptions option \<Rightarrow> state \<Rightarrow> (error + jsval) \<times> state" where
  "useStoreAdapter store options st =
     (let snapshot = (case options of None \<Rightarrow> identity
                      | Some opts \<Rightarrow> (case getSnapshot opts of None \<Rightarrow> identity | Some f \<Rightarrow> f))
      in case useStoreAdapterContext st of
           Inl e \<Rightarrow> (Inl e, st)
         | Inr context \<Rightarrow>
             (let (v, st1) = context_read store st in (Inr (snapshot v), st1)))"

text \<open>
  A world with no root and no store subscribed, and \<open>StoreAdapterRoot\<close>: under an
  existing provider it renders its children only; otherwise it provides a fresh
  reference, and the core, rendered before the children, stores its context in it.
\<close>

definition no_root :: "(nat \<Rightarrow> jsval) \<Rightarrow> state" where
  "no_root c =
     \<lparr>cells = c, upstream = [], handles = 0, trace = [], timers = [],
      provider = False, contextRef_current = False, isMounted = False,
      nextAddr = 0,
      heap = (\<lambda>a. \<lparr>notifier = Notifier_new Undefined, unsubscribe = None\<rparr>),
      memory = [], registered = {}, pendingStores = [], pendingStoresVersion = 0,
      pendingUpdates = [], pendingUpdatesVersion = 0\<rparr>"

definition StoreAdapterRoot :: "state \<Rightarrow> state" where
  "StoreAdapterRoot st =
     (if provider st then st
      else st\<lparr>provider := True, contextRef_current := True, isMounted := True,
              memory := [], registered := {}, pendingStores := [], pendingUpdates := []\<rparr>)"

text \<open>
  A change of the external store: the cell takes the value, then the store calls the
  callbacks subscribed to it.
\<close>

definition dispatch :: "nat \<Rightarrow> jsval \<Rightarrow> state \<Rightarrow> state" where
  "dispatch s v st =
     (let st1 = st\<lparr>cells := (cells st)(s := v)\<rparr>
      in fold callback_call (map (\<lambda>(h, s', cb). cb) (filter (\<lambda>(h, s', cb). s' = s) (upstream st1))) st1)"

section \<open>StoreAdapterCore of the variant built on \<open>react-scoped-model\<close>\<close>

text \<open>
  The second StoreAdapter source of the repository keeps the pending stores in a \<open>Set\<close>
  of descriptor objects, remembers the registered descriptors in the \<open>Set\<close>
  \<open>registered\<close>, and reads \<open>keepAlive\<close> before it evicts. Its Notifier,
  \<open>createStoreAdapter\<close>, \<open>batchUpdates\<close> and \<open>checkForUpdates\<close> are those above.
\<close>

definition pendingStores_add :: "StoreAdapter \<Rightarrow> StoreAdapter list \<Rightarrow> StoreAdapter list" where
  "pendingStores_add store xs = (if ref store \<in> ref ` set xs then xs else xs @ [store])"

definition registerStore_scoped :: "StoreAdapter \<Rightarrow> state \<Rightarrow> state" where
  "registerStore_scoped store st =
     (case map_of (memory st) (store_id store) of
        None \<Rightarrow> st
      | Some a \<Rightarrow>
          if ref store \<notin> registered st then
            (let (unsub, st1) = store_subscribe store (CheckForUpdates store a) st;
                 st2 = checkForUpdates store a st1;
                 st3 = (case unsub of
                          None \<Rightarrow> st2
                        | Some t \<Rightarrow> st2\<lparr>heap := (heap st2)(a := (heap st2 a)\<lparr>unsubscribe := Some t\<rparr>)\<rparr>)
             in st3\<lparr>registered := insert (ref store) (registered st3)\<rparr>)
          else st)"

definition flushPendingStores_scoped :: "state \<Rightarrow> state" where
  "flushPendingStores_scoped st =
     (if length (pendingStores st) \<noteq> 0
      then (let stores = pendingStores st
            in fold registerStore_scoped stores (st\<lparr>pendingStores := []\<rparr>))
      else st)"

definition flushPendingUpdates_scoped :: "state \<Rightarrow> state" where
  "flushPendingUpdates_scoped st =
     (let batch = pendingUpdates st
      in if length batch \<noteq> 0
         then fold thunk_call batch (st\<lparr>pendingUpdates := []\<rparr>)
         else st)"

definition getInstance_scoped :: "StoreAdapter \<Rightarrow> state \<Rightarrow> nat \<times> state" where
  "getInstance_scoped store st =
     (case map_of (memory st) (store_id store) of
        Some a \<Rightarrow> (a, st)
      | None \<Rightarrow>
          (let (v, st1) = store_read store st;
               a = nextAddr st1;
               st2 = st1\<lparr>nextAddr := a + 1,
                         heap := (heap st1)(a := \<lparr>notifier = Notifier_new v, unsubscribe = None\<rparr>)\<rparr>
           in (a, if isMounted st2
                  then st2\<lparr>memory := AList.update (store_id store) a (memory st2),
                           pendingStores := pendingStores_add store (pendingStores st2),
                           timers := timers st2 @ [DeferStoresVersion]\<rparr>
                  else st2)))"

definition context_read_scoped :: "StoreAdapter \<Rightarrow> state \<Rightarrow> jsval \<times> state" where
  "context_read_scoped store st =
     (let (a, st1) = getInstance_scoped store st
      in (Notifier_read (notifier (heap st1 a)), st1))"

definition context_subscribe_scoped :: "StoreAdapter \<Rightarrow> listener \<Rightarrow> state \<Rightarrow> nat \<times> state" where
  "context_subscribe_scoped store callback st =
     (let (a, st1) = getInstance_scoped store st
      in (a, update_notifier a (Notifier_subscribe callback) st1))"

definition evict_scoped :: "StoreAdapter \<Rightarrow> nat \<Rightarrow> state \<Rightarrow> state" where
  "evict_scoped store a st =
     (let st1 = (case unsubscribe (heap st a) of None \<Rightarrow> st | Some t \<Rightarrow> teardown_call t st);
          st2 = update_notifier a Notifier_destroy st1
      in st2\<lparr>memory := AList.delete (store_id store) (memory st2),
             registered := registered st2 - {ref store}\<rparr>)"

definition context_unsubscribe_scoped :: "StoreAdapter \<Rightarrow> nat \<Rightarrow> listener \<Rightarrow> state \<Rightarrow> state" where
  "context_unsubscribe_scoped store a callback st =
     (let st1 = update_notifier a (Notifier_unsubscribe callback) st
      in if \<not> (keepAlive store \<or> Notifier_hasListeners (notifier (heap st1 a)))
         then evict_scoped store a st1
         else st1)"

section \<open>What a flush leaves in the trace, and the stores of the tests\<close>

text \<open>The listener calls that running a queued thunk in state \<open>st\<close> makes.\<close>

fun thunk_events :: "state \<Rightarrow> thunk \<Rightarrow> event list" where
  "thunk_events st (NotifyThunk a v) = snd (Notifier_notify v (notifier (heap st a)))"

text \<open>
  The store adapter of the tests: a counter that starts at zero, created first in its
  module, with only \<open>read\<close> and \<open>subscribe\<close> given; and the same with \<open>keepAlive: true\<close>.
\<close>

definition counterOptions :: StoreAdapterOptions where
  "counterOptions = \<lparr>source = 0, returnsUnsubscribe = True, opt_id = None,
       opt_shouldUpdate = None, opt_keepAlive = None\<rparr>"

definition storeAdapter :: StoreAdapter where
  "storeAdapter = fst (createStoreAdapter counterOptions 0)"

definition keepAliveStore :: StoreAdapter where
  "keepAliveStore = fst (createStoreAdapter (counterOptions\<lparr>opt_keepAlive := Some True\<rparr>) 0)"

definition mounted_root :: state where
  "mounted_root = StoreAdapterRoot (no_root (\<lambda>s. Number PlusZero))"

text \<open>
  One consumer of a store under the root: its render reads the store, its effects
  register the store and subscribe the listener 1, and the core then runs the pending
  registrations. In the scoped-model variant the read itself enqueues the store, and a
  timer triggers the flush.
\<close>

definition one_consumer :: "StoreAdapter \<Rightarrow> state" where
  "one_consumer store =
     flushPendingStores (snd (context_subscribe store 1 (context_register store
       (snd (context_read store mounted_root)))))"

definition one_consumer_scoped :: "StoreAdapter \<Rightarrow> state" where
  "one_consumer_scoped store =
     flushPendingStores_scoped (runAllTimers (snd (context_subscribe_scoped store 1
       (snd (context_read_scoped store mounted_root)))))"

text \<open>
  Two consumers of one store, with the listeners 1 and 2: both render, then the effects
  of both run, before the core runs the pending registrations; and the state after the
  flush and after both have unsubscribed.
\<close>

definition two_consumers :: "StoreAdapter \<Rightarrow> state" where
  "two_consumers store =
     snd (context_subscribe store 2 (context_register store
       (snd (context_subscribe store 1 (context_register store
         (snd (context_read store (snd (context_read store mounted_root)))))))))"

definition two_consumers_gone :: "StoreAdapter \<Rightarrow> state" where
  "two_consumers_gone store =
     context_unsubscribe store 0 2 (context_unsubscribe store 0 1
       (flushPendingStores (two_consumers store)))"

definition two_consumers_scoped :: "StoreAdapter \<Rightarrow> state" where
  "two_consumers_scoped store =
     snd (context_subscribe_scoped store 2
       (snd (context_subscribe_scoped store 1
         (snd (context_read_scoped store (snd (context_read_scoped store mounted_root)))))))"

text \<open>
  The consumer of the counter after two timers have fired, each enqueuing an update of
  the instance at address 0.
\<close>

definition two_updates :: state where
  "two_updates =
     timer_fire (DeferUpdate (NotifyThunk 0 (Number (Finite 2))))
       (timer_fire (DeferUpdate (NotifyThunk 0 (Number (Finite 1)))) (one_consumer storeAdapter))"

text \<open>
  The events of calling the teardown that an instance holds, if it holds one.
\<close>

fun teardown_events :: "teardown option \<Rightarrow> event list" where
  "teardown_events None = []"
| "teardown_events (Some (Teardown r h)) = [StoreUnsubscribe r]"

text \<open>
  Beside the consumer with the listener 1, two consumers that subscribe the same
  callback 5; and two consumers that alone share the callback 5: both render, the
  effects of both run, and the core runs the pending registrations.
\<close>

definition duplicate_callback :: state where
  "duplicate_callback =
     snd (context_subscribe storeAdapter 5
       (snd (context_subscribe storeAdapter 5 (one_consumer storeAdapter))))"

definition same_callback_consumers :: state where
  "same_callback_consumers =
     flushPendingStores
       (snd (context_subscribe storeAdapter 5 (context_register storeAdapter
         (snd (context_subscribe storeAdapter 5 (context_register storeAdapter
           (snd (context_read storeAdapter (snd (context_read storeAdapter mounted_root))))))))))"

section \<open>The Notifier's stored value\<close>

lemma dead_step: "\<not> alive n \<Longrightarrow> Notifier_step x n = n"
  by (cases x) (simp_all add: Notifier_subscribe_def Notifier_unsubscribe_def
      Notifier_notify_def Notifier_destroy_def)

lemma dead_run: "\<not> alive n \<Longrightarrow> fold Notifier_step ops n = n"
  by (induction ops) (simp_all add: dead_step)

lemma alive_run:
  "alive n \<Longrightarrow> val (fold Notifier_step ops n) = last_notified (val n) ops"
proof (induction ops arbitrary: n)
  case Nil
  then show ?case by (simp add: last_notified_def)
next
  case (Cons x ops)
  show ?case
  proof (cases x)
    case (Subscribe l)
    with Cons show ?thesis
      by (simp add: Notifier_subscribe_def last_notified_def)
  next
    case (Unsubscribe l)
    with Cons show ?thesis
      by (simp add: Notifier_unsubscribe_def last_notified_def)
  next
    case (Notify v)
    have "alive (fst (Notifier_notify v n))" "val (fst (Notifier_notify v n)) = v"
      using Cons.prems by (simp_all add: Notifier_notify_def Let_def)
    with Cons.IH [of "fst (Notifier_notify v n)"] Notify show ?thesis
      by (simp add: last_notified_def)
  next
    case Destroy
    have "\<not> alive (Notifier_destroy n)" "val (Notifier_destroy n) = val n"
      by (simp_all add: Notifier_destroy_def)
    with Destroy show ?thesis
      by (simp add: dead_run last_notified_def)
  next
    case Read
    with Cons show ?thesis by (simp add: last_notified_def)
  next
    case HasListeners
    with Cons show ?thesis by (simp add: last_notified_def)
  qed
qed

text \<open>
  Claim C4. The stored value of a Notifier changes only through \<open>notify\<close> and only while
  the Notifier is alive: a call that changes it is a \<open>notify\<close> on a live Notifier;
  \<open>notify\<close> after \<open>destroy\<close> leaves the value as it was; and after any sequence of calls
  on a new Notifier, \<open>read()\<close> returns the value last handed to \<open>notify\<close> before the first
  \<open>destroy\<close>, or the seed when there is none, also when the Notifier has been destroyed.
\<close>

theorem Notifier_value_changes_only_by_live_notify:
  "(val (Notifier_step x n) \<noteq> val n \<longrightarrow> is_Notify x \<and> alive n)
   \<and> Notifier_read (fst (Notifier_notify v (Notifier_destroy n))) = Notifier_read n
   \<and> Notifier_read (Notifier_run ops (Notifier_new seed)) = last_notified seed ops"
proof -
  have a: "val (Notifier_step x n) \<noteq> val n \<longrightarrow> is_Notify x \<and> alive n"
    by (cases x) (auto simp: Notifier_subscribe_def Notifier_unsubscribe_def
        Notifier_notify_def Notifier_destroy_def Let_def split: if_splits)
  have b: "Notifier_read (fst (Notifier_notify v (Notifier_destroy n))) = Notifier_read n"
    by (simp add: Notifier_read_def Notifier_notify_def Notifier_destroy_def)
  have "alive (Notifier_new seed)" "val (Notifier_new seed) = seed"
    by (simp_all add: Notifier_new_def)
  then have c: "Notifier_read (Notifier_run ops (Notifier_new seed)) = last_notified seed ops"
    using alive_run [of "Notifier_new seed" ops]
    by (simp add: Notifier_read_def Notifier_run_def)
  from a b c show ?thesis by simp
qed

theorem Notifier_value_changes_only_by_live_notify_witness:
  "val (Notifier_step (Notify (Number (Finite 1))) (Notifier_new (Number PlusZero)))
     \<noteq> val (Notifier_new (Number PlusZero))
   \<and> is_Notify (Notify (Number (Finite 1))) \<and> alive (Notifier_new (Number PlusZero))
   \<and> Notifier_read (Notifier_run [Notify (Number (Finite 1)), Destroy, Notify (Number (Finite 2)), Read]
        (Notifier_new (Number PlusZero))) = Number (Finite 1)"
  using Notifier_value_changes_only_by_live_notify
    [of "Notify (Number (Finite 1))" "Notifier_new (Number PlusZero)" Undefined
        "[Notify (Number (Finite 1)), Destroy, Notify (Number (Finite 2)), Read]" "Number PlusZero"]
  by (simp add: Notifier_new_def Notifier_notify_def last_notified_def)

section \<open>Notification\<close>

lemma fold_subscribe_alive:
  "alive n \<Longrightarrow> fold Notifier_subscribe ls n = n\<lparr>listeners := fold Set_add ls (listeners n)\<rparr>"
  by (induction ls arbitrary: n) (simp_all add: Notifier_subscribe_def)

lemma fold_Set_add_distinct:
  "distinct ls \<Longrightarrow> set ls \<inter> set xs = {} \<Longrightarrow> fold Set_add ls xs = xs @ ls"
  by (induction ls arbitrary: xs) (auto simp: Set_add_def)

text \<open>
  Claim C8. On a live Notifier, \<open>notify(v)\<close> stores \<open>v\<close> and then calls every registered
  listener with \<open>v\<close>, in the order of insertion, each call finding \<open>v\<close> already stored;
  listeners subscribed one after another to a new Notifier are called in that order.
  On a destroyed Notifier, \<open>notify\<close> calls no listener.
\<close>

theorem notify_sets_value_then_calls_listeners_in_order:
  "(alive n \<longrightarrow>
      Notifier_notify v n = (n\<lparr>val := v\<rparr>, map (\<lambda>l. ListenerCall l v v) (listeners n)))
   \<and> (distinct ls \<longrightarrow>
      snd (Notifier_notify v (fold Notifier_subscribe ls (Notifier_new seed)))
        = map (\<lambda>l. ListenerCall l v v) ls)
   \<and> (\<not> alive n \<longrightarrow> snd (Notifier_notify v n) = [])"
proof -
  have a: "alive n \<longrightarrow>
      Notifier_notify v n = (n\<lparr>val := v\<rparr>, map (\<lambda>l. ListenerCall l v v) (listeners n))"
    by (simp add: Notifier_notify_def Let_def)
  have b: "distinct ls \<longrightarrow>
      snd (Notifier_notify v (fold Notifier_subscribe ls (Notifier_new seed)))
        = map (\<lambda>l. ListenerCall l v v) ls"
  proof
    assume d: "distinct ls"
    have "alive (Notifier_new seed)" by (simp add: Notifier_new_def)
    then have "fold Notifier_subscribe ls (Notifier_new seed)
                 = (Notifier_new seed)\<lparr>listeners := fold Set_add ls []\<rparr>"
      using fold_subscribe_alive [of "Notifier_new seed" ls] by (simp add: Notifier_new_def)
    moreover have "fold Set_add ls [] = ls"
      using fold_Set_add_distinct [OF d, of "[]"] by simp
    ultimately show "snd (Notifier_notify v (fold Notifier_subscribe ls (Notifier_new seed)))
        = map (\<lambda>l. ListenerCall l v v) ls"
      by (simp add: Notifier_notify_def Notifier_new_def Let_def)
  qed
  have c: "\<not> alive n \<longrightarrow> snd (Notifier_notify v n) = []"
    by (simp add: Notifier_notify_def)
  from a b c show ?thesis by simp
qed

theorem notify_sets_value_then_calls_listeners_in_order_witness:
  "alive (Notifier_new Null) \<and> distinct [3, 1, 2 :: nat]
   \<and> \<not> alive (Notifier_destroy (Notifier_new Null))
   \<and> Notifier_notify (String ''a'') (Notifier_new Null) = ((Notifier_new Null)\<lparr>val := String ''a''\<rparr>, [])
   \<and> snd (Notifier_notify (String ''a'') (fold Notifier_subscribe [3, 1, 2] (Notifier_new Null)))
       = [ListenerCall 3 (String ''a'') (String ''a''), ListenerCall 1 (String ''a'') (String ''a''),
          ListenerCall 2 (String ''a'') (String ''a'')]
   \<and> snd (Notifier_notify (String ''a'') (Notifier_destroy (Notifier_new Null))) = []"
  using notify_sets_value_then_calls_listeners_in_order
      [of "Notifier_new Null" "String ''a''" "[3, 1, 2]" Null]
    notify_sets_value_then_calls_listeners_in_order
      [of "Notifier_destroy (Notifier_new Null)" "String ''a''" "[]" Null]
  by (simp add: Notifier_new_def Notifier_destroy_def)

section \<open>Repeated cleanup\<close>

text \<open>
  Claim C9. The closure returned by \<open>subscribe\<close> called a second time, \<open>destroy\<close> called
  a second time, and any call on a destroyed Notifier leave the Notifier as the first
  call left it. No method of the Notifier has a failing branch: each is a total
  function of the state.
\<close>

theorem Notifier_cleanup_is_idempotent:
  "Notifier_unsubscribe l (Notifier_unsubscribe l n) = Notifier_unsubscribe l n
   \<and> Notifier_destroy (Notifier_destroy n) = Notifier_destroy n
   \<and> (\<not> alive n \<longrightarrow> Notifier_step x n = n \<and> Notifier_notify v n = (n, []))
   \<and> Notifier_step x (Notifier_destroy n) = Notifier_destroy n"
proof -
  have a: "Notifier_unsubscribe l (Notifier_unsubscribe l n) = Notifier_unsubscribe l n"
    by (simp add: Notifier_unsubscribe_def Set_delete_def)
  have b: "Notifier_destroy (Notifier_destroy n) = Notifier_destroy n"
    by (simp add: Notifier_destroy_def)
  have c: "\<not> alive n \<longrightarrow> Notifier_step x n = n \<and> Notifier_notify v n = (n, [])"
    by (simp add: dead_step Notifier_notify_def)
  have "\<not> alive (Notifier_destroy n)" by (simp add: Notifier_destroy_def)
  then have d: "Notifier_step x (Notifier_destroy n) = Notifier_destroy n"
    by (rule dead_step)
  from a b c d show ?thesis by simp
qed

theorem Notifier_cleanup_is_idempotent_witness:
  "\<not> alive (Notifier_destroy (Notifier_subscribe 7 (Notifier_new Null)))
   \<and> Notifier_step (Subscribe 8) (Notifier_destroy (Notifier_subscribe 7 (Notifier_new Null)))
       = \<lparr>alive = False, listeners = [], val = Null\<rparr>
   \<and> Notifier_notify (Boolean True) (Notifier_destroy (Notifier_subscribe 7 (Notifier_new Null)))
       = (\<lparr>alive = False, listeners = [], val = Null\<rparr>, [])"
  using Notifier_cleanup_is_idempotent
      [of 7 "Notifier_destroy (Notifier_subscribe 7 (Notifier_new Null))" "Subscribe 8" "Boolean True"]
  by (simp add: Notifier_new_def Notifier_destroy_def Notifier_subscribe_def Set_add_def)

section \<open>The default change predicate\<close>

lemma Object_is_iff: "Object_is x y \<longleftrightarrow> x = y"
  by (induction x y rule: Object_is.induct) auto

text \<open>
  Claim C7. A descriptor created by \<open>createStoreAdapter\<close> with \<open>shouldUpdate\<close> omitted
  has the change predicate \<open>!Object.is(prev, next)\<close>: it is true exactly when \<open>prev\<close>
  and \<open>next\<close> are not the same value, so it is false on two NaNs and true on zeros of
  opposite sign.
\<close>

theorem default_shouldUpdate_is_identity_inequality:
  "opt_shouldUpdate options = None \<Longrightarrow>
   shouldUpdate (fst (createStoreAdapter options index)) prev next = (prev \<noteq> next)"
  by (simp add: createStoreAdapter_def getIndex_def defaultUpdate_def Object_is_iff)

theorem default_shouldUpdate_is_identity_inequality_witness:
  "opt_shouldUpdate \<lparr>source = 0, returnsUnsubscribe = True, opt_id = None,
       opt_shouldUpdate = None, opt_keepAlive = None\<rparr> = None
   \<and> \<not> shouldUpdate (fst (createStoreAdapter \<lparr>source = 0, returnsUnsubscribe = True, opt_id = None,
       opt_shouldUpdate = None, opt_keepAlive = None\<rparr> 0)) (Number NaN) (Number NaN)
   \<and> shouldUpdate (fst (createStoreAdapter \<lparr>source = 0, returnsUnsubscribe = True, opt_id = None,
       opt_shouldUpdate = None, opt_keepAlive = None\<rparr> 0)) (Number PlusZero) (Number MinusZero)"
  using default_shouldUpdate_is_identity_inequality
    [of "\<lparr>source = 0, returnsUnsubscribe = True, opt_id = None,
       opt_shouldUpdate = None, opt_keepAlive = None\<rparr>" 0 "Number NaN" "Number NaN"]
    default_shouldUpdate_is_identity_inequality
    [of "\<lparr>source = 0, returnsUnsubscribe = True, opt_id = None,
       opt_shouldUpdate = None, opt_keepAlive = None\<rparr>" 0 "Number PlusZero" "Number MinusZero"]
  by simp

section \<open>The flush of the pending updates\<close>

lemma thunk_call_frame:
  "isMounted (thunk_call u st) = isMounted st"
  "pendingUpdates (thunk_call u st) = pendingUpdates st"
  "trace (thunk_call u st) = trace st @ thunk_events st u"
  by (cases u; simp add: Let_def split: prod.splits)+

lemma thunk_call_events: "thunk_events (thunk_call u st) u' = thunk_events st u'"
  by (cases u; cases u') (simp add: Let_def Notifier_notify_def split: prod.splits)

lemma fold_runUpdate_mounted:
  "isMounted st \<Longrightarrow> fold runUpdate batch st = fold thunk_call batch st"
  by (induction batch arbitrary: st) (simp_all add: runUpdate_def thunk_call_frame)

lemma fold_runUpdate_unmounted:
  "\<not> isMounted st \<Longrightarrow> fold runUpdate batch st = st"
  by (induction batch arbitrary: st) (simp_all add: runUpdate_def)

lemma fold_thunk_call_pending:
  "pendingUpdates (fold thunk_call batch st) = pendingUpdates st"
  by (induction batch arbitrary: st) (simp_all add: thunk_call_frame)

lemma fold_thunk_call_trace:
  "trace (fold thunk_call batch st) = trace st @ concat (map (thunk_events st) batch)"
proof (induction batch arbitrary: st)
  case Nil
  show ?case by simp
next
  case (Cons u batch)
  have "map (thunk_events (thunk_call u st)) batch = map (thunk_events st) batch"
    by (simp add: thunk_call_events)
  with Cons [of "thunk_call u st"] show ?case
    by (simp add: thunk_call_frame)
qed

lemma thunk_events_pending: "thunk_events (st\<lparr>pendingUpdates := q\<rparr>) = thunk_events st"
proof
  fix u show "thunk_events (st\<lparr>pendingUpdates := q\<rparr>) u = thunk_events st u"
    by (cases u) simp
qed

lemma flushPendingUpdates_unmounted:
  "\<not> isMounted st \<Longrightarrow> flushPendingUpdates st = st\<lparr>pendingUpdates := []\<rparr>"
  using fold_runUpdate_unmounted [of "st\<lparr>pendingUpdates := []\<rparr>" "pendingUpdates st"]
  by (cases "pendingUpdates st") (simp_all add: flushPendingUpdates_def Let_def)

lemma teardown_call_mounted: "isMounted (teardown_call t st) = isMounted st"
  by (cases t) simp

lemma cleanup_item_mounted: "isMounted (cleanup_item a st) = isMounted st"
  by (simp add: cleanup_item_def update_notifier_def Let_def teardown_call_mounted
      split: option.splits)

lemma fold_cleanup_item_mounted: "isMounted (fold cleanup_item as st) = isMounted st"
  by (induction as arbitrary: st) (simp_all add: cleanup_item_mounted)

lemma unmount_not_mounted: "\<not> isMounted (unmount st)"
  by (simp add: unmount_def Let_def fold_cleanup_item_mounted)

text \<open>
  Claim C5. One flush of the pending-update queue of a mounted root runs the queued
  thunks in the order they were enqueued, so the listener calls appear in the trace
  in queue order, and a fired timer enqueues its thunk at the end. The flush leaves the
  queue empty whether the root is mounted or not. On a root whose liveness flag is
  down, as it is after the unmount, the flush runs no thunk and a fired timer enqueues
  nothing: the update is dropped.
\<close>

theorem pending_updates_flush_fifo_and_liveness:
  "(isMounted st \<longrightarrow>
      flushPendingUpdates st = fold thunk_call (pendingUpdates st) (st\<lparr>pendingUpdates := []\<rparr>)
      \<and> trace (flushPendingUpdates st)
          = trace st @ concat (map (thunk_events st) (pendingUpdates st))
      \<and> pendingUpdates (timer_fire (DeferUpdate cb) st) = pendingUpdates st @ [cb])
   \<and> pendingUpdates (flushPendingUpdates st) = []
   \<and> (\<not> isMounted st \<longrightarrow>
        flushPendingUpdates st = st\<lparr>pendingUpdates := []\<rparr>
        \<and> timer_fire (DeferUpdate cb) st = st)
   \<and> \<not> isMounted (unmount st)
   \<and> flushPendingUpdates (unmount st) = (unmount st)\<lparr>pendingUpdates := []\<rparr>
   \<and> timer_fire (DeferUpdate cb) (unmount st) = unmount st"
proof -
  let ?st0 = "st\<lparr>pendingUpdates := []\<rparr>"
  have a: "isMounted st \<longrightarrow>
      flushPendingUpdates st = fold thunk_call (pendingUpdates st) ?st0"
    using fold_runUpdate_mounted [of ?st0 "pendingUpdates st"]
    by (cases "pendingUpdates st") (simp_all add: flushPendingUpdates_def Let_def)
  have "trace (fold thunk_call (pendingUpdates st) ?st0)
          = trace st @ concat (map (thunk_events st) (pendingUpdates st))"
    using fold_thunk_call_trace [of "pendingUpdates st" ?st0]
    by (simp add: thunk_events_pending)
  with a have b: "isMounted st \<longrightarrow> trace (flushPendingUpdates st)
          = trace st @ concat (map (thunk_events st) (pendingUpdates st))"
    by simp
  have c: "isMounted st \<longrightarrow>
      pendingUpdates (timer_fire (DeferUpdate cb) st) = pendingUpdates st @ [cb]"
    by simp
  have e: "\<not> isMounted st \<longrightarrow> flushPendingUpdates st = ?st0"
    by (simp add: flushPendingUpdates_unmounted)
  have d: "pendingUpdates (flushPendingUpdates st) = []"
  proof (cases "isMounted st")
    case True
    with a show ?thesis by (simp add: fold_thunk_call_pending)
  next
    case False
    with e show ?thesis by simp
  qed
  have f: "\<not> isMounted st \<longrightarrow> timer_fire (DeferUpdate cb) st = st" by simp
  have g: "\<not> isMounted (unmount st)" by (rule unmount_not_mounted)
  have h: "flushPendingUpdates (unmount st) = (unmount st)\<lparr>pendingUpdates := []\<rparr>"
    using g by (rule flushPendingUpdates_unmounted)
  have k: "timer_fire (DeferUpdate cb) (unmount st) = unmount st"
    using g by simp
  from a b c d e f g h k show ?thesis by blast
qed

theorem pending_updates_flush_fifo_and_liveness_witness:
  "isMounted two_updates
   \<and> pendingUpdates two_updates
       = [NotifyThunk 0 (Number (Finite 1)), NotifyThunk 0 (Number (Finite 2))]
   \<and> trace (flushPendingUpdates two_updates)
       = trace two_updates
         @ [ListenerCall 1 (Number (Finite 1)) (Number (Finite 1)),
            ListenerCall 1 (Number (Finite 2)) (Number (Finite 2))]
   \<and> pendingUpdates (flushPendingUpdates two_updates) = []
   \<and> \<not> isMounted (unmount two_updates)
   \<and> pendingUpdates (unmount two_updates)
       = [NotifyThunk 0 (Number (Finite 1)), NotifyThunk 0 (Number (Finite 2))]
   \<and> flushPendingUpdates (unmount two_updates) = (unmount two_updates)\<lparr>pendingUpdates := []\<rparr>
   \<and> timer_fire (DeferUpdate (NotifyThunk 0 Null)) (unmount two_updates) = unmount two_updates"
proof -
  have a: "isMounted two_updates" by code_simp
  have b: "pendingUpdates two_updates
       = [NotifyThunk 0 (Number (Finite 1)), NotifyThunk 0 (Number (Finite 2))]"
    by code_simp
  have b': "pendingUpdates (unmount two_updates)
       = [NotifyThunk 0 (Number (Finite 1)), NotifyThunk 0 (Number (Finite 2))]"
    by code_simp
  have c: "notifier (heap two_updates 0) = \<lparr>alive = True, listeners = [1], val = Number PlusZero\<rparr>"
    by code_simp
  note T1 = pending_updates_flush_fifo_and_liveness [of two_updates "NotifyThunk 0 Null"]
  note T2 = pending_updates_flush_fifo_and_liveness [of "unmount two_updates" "NotifyThunk 0 Null"]
  from T1 a have e: "trace (flushPendingUpdates two_updates)
          = trace two_updates @ concat (map (thunk_events two_updates) (pendingUpdates two_updates))"
    by blast
  from T1 have f: "pendingUpdates (flushPendingUpdates two_updates) = []" by blast
  from T1 have d: "\<not> isMounted (unmount two_updates)" by blast
  from T2 d have g: "flushPendingUpdates (unmount two_updates)
       = (unmount two_updates)\<lparr>pendingUpdates := []\<rparr>"
    by blast
  from T2 d have h: "timer_fire (DeferUpdate (NotifyThunk 0 Null)) (unmount two_updates)
       = unmount two_updates"
    by blast
  from a b b' d e f g h show ?thesis
    by (simp add: c Notifier_notify_def)
qed

section \<open>Consumption without a root\<close>

text \<open>
  Claim C3. With no provider above the consumer, the render of \<open>useStoreAdapter\<close> fails
  with the error of the missing context reference, for every store and every options,
  and leaves the state as it was: no store has been read, no instance created and
  nothing subscribed.
\<close>

theorem missing_root_fails_before_any_read:
  "\<not> provider st \<Longrightarrow> useStoreAdapter store options st = (Inl MissingContextReference, st)"
  by (simp add: useStoreAdapter_def useStoreAdapterContext_def useStoreAdapterContextRef_def)

theorem missing_root_fails_before_any_read_witness:
  "\<not> provider (no_root (\<lambda>s. Number PlusZero))
   \<and> fst (useStoreAdapter storeAdapter None (no_root (\<lambda>s. Number PlusZero)))
       = Inl MissingContextReference
   \<and> trace (snd (useStoreAdapter storeAdapter None (no_root (\<lambda>s. Number PlusZero)))) = []
   \<and> memory (snd (useStoreAdapter storeAdapter None (no_root (\<lambda>s. Number PlusZero)))) = []"
  using missing_root_fails_before_any_read [of "no_root (\<lambda>s. Number PlusZero)" storeAdapter None]
  by (simp add: no_root_def)

section \<open>The first read of a store\<close>

lemma getInstance_fresh:
  assumes "map_of (memory st) (store_id store) = None"
  shows "fst (getInstance store st) = nextAddr st"
    and "notifier (heap (snd (getInstance store st)) (nextAddr st)) = Notifier_new (cells st (source store))"
    and "trace (snd (getInstance store st)) = trace st @ [StoreRead (ref store)]"
  using assms by (simp_all add: getInstance_def store_read_def Let_def)

text \<open>
  Claim C6. For a store with no entry in the registry, the first read creates a
  Notifier seeded with what \<open>store.read()\<close> returns at that moment and returns that
  value, in both variants of the registry; so a store that changed from \<open>v0\<close> to \<open>v1\<close>
  before the root rendered is first observed as \<open>v1\<close>.
\<close>

theorem first_read_seeds_from_store:
  "map_of (memory st) (store_id store) = None \<Longrightarrow>
     notifier (heap (snd (getInstance store st)) (fst (getInstance store st)))
       = Notifier_new (cells st (source store))
     \<and> context_read store st = (cells st (source store), snd (getInstance store st))
     \<and> trace (snd (context_read store st)) = trace st @ [StoreRead (ref store)]
     \<and> fst (context_read_scoped store st) = cells st (source store)
     \<and> fst (useStoreAdapter store None
               (StoreAdapterRoot (dispatch (source store) v1 (no_root (c((source store) := v0))))))
         = Inr v1"
proof -
  assume fresh: "map_of (memory st) (store_id store) = None"
  note g = getInstance_fresh [OF fresh]
  have a: "notifier (heap (snd (getInstance store st)) (fst (getInstance store st)))
       = Notifier_new (cells st (source store))"
    using g by simp
  have b: "context_read store st = (cells st (source store), snd (getInstance store st))"
    using g by (simp add: context_read_def split_beta Notifier_read_def Notifier_new_def)
  have c: "trace (snd (context_read store st)) = trace st @ [StoreRead (ref store)]"
    using b g by simp
  have d: "fst (context_read_scoped store st) = cells st (source store)"
    using fresh
    by (simp add: context_read_scoped_def getInstance_scoped_def store_read_def Let_def
        Notifier_read_def Notifier_new_def)
  have e: "fst (useStoreAdapter store None
               (StoreAdapterRoot (dispatch (source store) v1 (no_root (c((source store) := v0))))))
         = Inr v1"
    by (simp add: useStoreAdapter_def useStoreAdapterContext_def useStoreAdapterContextRef_def
        StoreAdapterRoot_def dispatch_def no_root_def context_read_def getInstance_def
        store_read_def Let_def Notifier_read_def Notifier_new_def identity_def)
  from a b c d e show ?thesis by simp
qed

theorem first_read_seeds_from_store_witness:
  "map_of (memory mounted_root) (store_id storeAdapter) = None
   \<and> fst (context_read storeAdapter mounted_root) = Number PlusZero
   \<and> trace (snd (context_read storeAdapter mounted_root)) = [StoreRead 0]
   \<and> fst (useStoreAdapter storeAdapter None
             (StoreAdapterRoot (dispatch (source storeAdapter) (Number (Finite 1))
                (no_root ((\<lambda>s. Null)(source storeAdapter := Number PlusZero))))))
       = Inr (Number (Finite 1))"
proof -
  have m: "map_of (memory mounted_root) (store_id storeAdapter) = None"
    by (simp add: mounted_root_def StoreAdapterRoot_def no_root_def)
  have c: "cells mounted_root (source storeAdapter) = Number PlusZero"
    by (simp add: mounted_root_def StoreAdapterRoot_def no_root_def)
  have t: "trace mounted_root = []"
    by (simp add: mounted_root_def StoreAdapterRoot_def no_root_def)
  have r: "ref storeAdapter = 0"
    by (simp add: storeAdapter_def createStoreAdapter_def getIndex_def counterOptions_def)
  note T = first_read_seeds_from_store
             [OF m, of "Number (Finite 1)" "\<lambda>s. Null" "Number PlusZero"]
  from T have a: "context_read storeAdapter mounted_root
       = (cells mounted_root (source storeAdapter), snd (getInstance storeAdapter mounted_root))"
    by blast
  then have a': "fst (context_read storeAdapter mounted_root) = Number PlusZero"
    by (simp add: c)
  from T have b: "trace (snd (context_read storeAdapter mounted_root))
       = trace mounted_root @ [StoreRead (ref storeAdapter)]"
    by blast
  then have b': "trace (snd (context_read storeAdapter mounted_root)) = [StoreRead 0]"
    by (simp only: t r append_Nil)
  from T have d: "fst (useStoreAdapter storeAdapter None
             (StoreAdapterRoot (dispatch (source storeAdapter) (Number (Finite 1))
                (no_root ((\<lambda>s. Null)(source storeAdapter := Number PlusZero))))))
       = Inr (Number (Finite 1))"
    by blast
  from m a' b' d show ?thesis by blast
qed

section \<open>One callback subscribed twice\<close>

lemma update_notifier_frame:
  "memory (update_notifier a f st) = memory st"
  "trace (update_notifier a f st) = trace st"
  "isMounted (update_notifier a f st) = isMounted st"
  "notifier (heap (update_notifier a f st) a) = f (notifier (heap st a))"
  "unsubscribe (heap (update_notifier a f st) a) = unsubscribe (heap st a)"
  by (simp_all add: update_notifier_def)

lemma getInstance_fresh_mounted:
  assumes "isMounted st" "map_of (memory st) (store_id store) = None"
  shows "fst (getInstance store st) = nextAddr st"
    and "map_of (memory (snd (getInstance store st))) (store_id store) = Some (nextAddr st)"
    and "notifier (heap (snd (getInstance store st)) (nextAddr st)) = Notifier_new (cells st (source store))"
    and "unsubscribe (heap (snd (getInstance store st)) (nextAddr st)) = None"
    and "isMounted (snd (getInstance store st))"
  using assms by (simp_all add: getInstance_def store_read_def Let_def update_conv')

lemma getInstance_present:
  "map_of (memory st) (store_id store) = Some a \<Longrightarrow> getInstance store st = (a, st)"
  by (simp add: getInstance_def)

lemma evict_frame:
  "map_of (memory (evict store a st)) (store_id store) = None"
  "notifier (heap (evict store a st) a) = Notifier_destroy (notifier (heap st a))"
  by (cases "unsubscribe (heap st a)"; cases "the (unsubscribe (heap st a))";
      simp add: evict_def Let_def update_notifier_def delete_conv')+

lemma update_notifier_id:
  "f (notifier (heap st a)) = notifier (heap st a) \<Longrightarrow> update_notifier a f st = st"
  by (simp add: update_notifier_def)

lemma duplicate_callback_registered_once:
  "isMounted st \<Longrightarrow> map_of (memory st) (store_id store) = None \<Longrightarrow>
   (let a = nextAddr st;
        st1 = snd (context_subscribe store cb st);
        st2 = snd (context_subscribe store cb st1);
        st3 = context_unsubscribe store a cb st2;
        st4 = context_unsubscribe store a cb st3
    in fst (context_subscribe store cb st) = a
       \<and> fst (context_subscribe store cb st1) = a
       \<and> listeners (notifier (heap st2 a)) = [cb]
       \<and> snd (Notifier_notify v (notifier (heap st2 a))) = [ListenerCall cb v v]
       \<and> st3 = evict store a (update_notifier a (Notifier_unsubscribe cb) st2)
       \<and> map_of (memory st3) (store_id store) = None
       \<and> \<not> alive (notifier (heap st3 a))
       \<and> \<not> Notifier_hasListeners (notifier (heap st3 a))
       \<and> st4 = evict store a st3
       \<and> map_of (memory st4) (store_id store) = None)"
proof -
  assume mounted: "isMounted st" and fresh: "map_of (memory st) (store_id store) = None"
  define a where "a = nextAddr st"
  define st1 where "st1 = snd (context_subscribe store cb st)"
  define st2 where "st2 = snd (context_subscribe store cb st1)"
  define st3 where "st3 = context_unsubscribe store a cb st2"
  define st4 where "st4 = context_unsubscribe store a cb st3"
  note g = getInstance_fresh_mounted [OF mounted fresh]
  have s1: "fst (context_subscribe store cb st) = a"
    using g by (simp add: context_subscribe_def split_beta a_def)
  have m1: "map_of (memory st1) (store_id store) = Some a"
    using g by (simp add: st1_def context_subscribe_def split_beta a_def update_notifier_frame)
  have n1: "notifier (heap st1 a) = \<lparr>alive = True, listeners = [cb], val = cells st (source store)\<rparr>"
    using g by (simp add: st1_def context_subscribe_def split_beta a_def update_notifier_frame
        Notifier_new_def Notifier_subscribe_def Set_add_def)
  have s2: "fst (context_subscribe store cb st1) = a"
    using getInstance_present [OF m1] by (simp add: context_subscribe_def)
  have st2_eq: "st2 = update_notifier a (Notifier_subscribe cb) st1"
    using getInstance_present [OF m1] by (simp add: st2_def context_subscribe_def)
  have n2: "notifier (heap st2 a) = \<lparr>alive = True, listeners = [cb], val = cells st (source store)\<rparr>"
    by (simp add: st2_eq update_notifier_frame n1 Notifier_subscribe_def Set_add_def)
  have l2: "listeners (notifier (heap st2 a)) = [cb]" by (simp add: n2)
  have c2: "snd (Notifier_notify v (notifier (heap st2 a))) = [ListenerCall cb v v]"
    by (simp add: n2 Notifier_notify_def)
  have e3: "st3 = evict store a (update_notifier a (Notifier_unsubscribe cb) st2)"
    by (simp add: st3_def context_unsubscribe_def Let_def update_notifier_frame n2
        Notifier_unsubscribe_def Set_delete_def Notifier_hasListeners_def)
  have m3: "map_of (memory st3) (store_id store) = None"
    by (simp add: e3 evict_frame)
  have n3: "notifier (heap st3 a) = \<lparr>alive = False, listeners = [], val = cells st (source store)\<rparr>"
    by (simp add: e3 evict_frame update_notifier_frame n2 Notifier_unsubscribe_def Set_delete_def
        Notifier_destroy_def)
  have d3: "\<not> alive (notifier (heap st3 a))" by (simp add: n3)
  have h3: "\<not> Notifier_hasListeners (notifier (heap st3 a))"
    by (simp add: n3 Notifier_hasListeners_def)
  have u3: "update_notifier a (Notifier_unsubscribe cb) st3 = st3"
    by (rule update_notifier_id) (simp add: n3 Notifier_unsubscribe_def)
  have e4: "st4 = evict store a st3"
    using h3 by (simp add: st4_def context_unsubscribe_def Let_def u3)
  have m4: "map_of (memory st4) (store_id store) = None"
    by (simp add: e4 evict_frame)
  from s1 s2 l2 c2 e3 m3 d3 h3 e4 m4 show ?thesis
    unfolding Let_def a_def st1_def st2_def st3_def st4_def by blast
qed

lemma count_calls_distinct:
  "distinct xs \<Longrightarrow>
   count_list (map (\<lambda>l. ListenerCall l v v) xs) (ListenerCall l v v) = (if l \<in> set xs then 1 else 0)"
  by (induction xs) auto

lemma Set_add_props:
  "l \<in> set (Set_add l xs)" "distinct xs \<Longrightarrow> distinct (Set_add l xs)"
  "Set_add l (Set_add l xs) = Set_add l xs" "l \<notin> set (Set_delete l xs)"
  by (simp_all add: Set_add_def Set_delete_def)

lemma evict_more:
  "trace (evict store a st) = trace st @ teardown_events (unsubscribe (heap st a))"
  "unsubscribe (heap (evict store a st) a) = unsubscribe (heap st a)"
  "upstream (update_notifier a f st) = upstream st"
  by (cases "unsubscribe (heap st a)"; cases "the (unsubscribe (heap st a))";
      simp add: evict_def Let_def update_notifier_def)+

lemma unsubscribe_evicts:
  assumes al: "alive (notifier (heap s a))"
    and none: "removeAll cb (listeners (notifier (heap s a))) = []"
  shows "context_unsubscribe store a cb s
           = evict store a (update_notifier a (Notifier_unsubscribe cb) s)"
    and "map_of (memory (context_unsubscribe store a cb s)) (store_id store) = None"
    and "\<not> alive (notifier (heap (context_unsubscribe store a cb s) a))"
    and "\<not> Notifier_hasListeners (notifier (heap (context_unsubscribe store a cb s) a))"
    and "trace (context_unsubscribe store a cb s)
           = trace s @ teardown_events (unsubscribe (heap s a))"
    and "context_unsubscribe store a cb (context_unsubscribe store a cb s)
           = evict store a (context_unsubscribe store a cb s)"
    and "trace (context_unsubscribe store a cb (context_unsubscribe store a cb s))
           = trace s @ teardown_events (unsubscribe (heap s a))
               @ teardown_events (unsubscribe (heap s a))"
    and "map_of (memory (context_unsubscribe store a cb (context_unsubscribe store a cb s)))
           (store_id store) = None"
proof -
  let ?s1 = "update_notifier a (Notifier_unsubscribe cb) s"
  let ?s3 = "context_unsubscribe store a cb s"
  have n1: "notifier (heap ?s1 a) = (notifier (heap s a))\<lparr>listeners := []\<rparr>"
    using al none by (simp add: update_notifier_frame Notifier_unsubscribe_def Set_delete_def)
  show e3: "?s3 = evict store a ?s1"
    by (simp add: context_unsubscribe_def Let_def n1 Notifier_hasListeners_def)
  show m3: "map_of (memory ?s3) (store_id store) = None"
    by (simp add: e3 evict_frame)
  have n3: "notifier (heap ?s3 a) = (notifier (heap s a))\<lparr>listeners := [], alive := False\<rparr>"
    using al by (simp add: e3 evict_frame n1 Notifier_destroy_def)
  show d3: "\<not> alive (notifier (heap ?s3 a))" by (simp add: n3)
  show h3: "\<not> Notifier_hasListeners (notifier (heap ?s3 a))"
    by (simp add: n3 Notifier_hasListeners_def)
  show t3: "trace ?s3 = trace s @ teardown_events (unsubscribe (heap s a))"
    by (simp add: e3 evict_more update_notifier_frame)
  have u3: "update_notifier a (Notifier_unsubscribe cb) ?s3 = ?s3"
    by (rule update_notifier_id) (simp add: d3 Notifier_unsubscribe_def)
  show e4: "context_unsubscribe store a cb ?s3 = evict store a ?s3"
    using h3 by (simp add: context_unsubscribe_def [of store a cb ?s3] Let_def u3)
  have us: "unsubscribe (heap ?s3 a) = unsubscribe (heap s a)"
    by (simp add: e3 evict_more update_notifier_frame)
  show "trace (context_unsubscribe store a cb ?s3)
           = trace s @ teardown_events (unsubscribe (heap s a))
               @ teardown_events (unsubscribe (heap s a))"
    by (simp add: e4 evict_more t3 us)
  show "map_of (memory (context_unsubscribe store a cb ?s3)) (store_id store) = None"
    by (simp add: e4 evict_frame)
qed

lemma unsubscribe_keeps:
  assumes al: "alive (notifier (heap s a))"
    and some: "removeAll cb (listeners (notifier (heap s a))) \<noteq> []"
  shows "context_unsubscribe store a cb s = update_notifier a (Notifier_unsubscribe cb) s"
    and "Notifier_hasListeners (notifier (heap (context_unsubscribe store a cb s) a))"
    and "context_unsubscribe store a cb (context_unsubscribe store a cb s)
           = context_unsubscribe store a cb s"
    and "memory (context_unsubscribe store a cb (context_unsubscribe store a cb s)) = memory s"
    and "trace (context_unsubscribe store a cb (context_unsubscribe store a cb s)) = trace s"
    and "notifier (heap (context_unsubscribe store a cb (context_unsubscribe store a cb s)) a)
           = (notifier (heap s a))\<lparr>listeners := removeAll cb (listeners (notifier (heap s a)))\<rparr>"
proof -
  let ?s1 = "update_notifier a (Notifier_unsubscribe cb) s"
  let ?s3 = "context_unsubscribe store a cb s"
  have n1: "notifier (heap ?s1 a)
              = (notifier (heap s a))\<lparr>listeners := removeAll cb (listeners (notifier (heap s a)))\<rparr>"
    using al by (simp add: update_notifier_frame Notifier_unsubscribe_def Set_delete_def)
  show e3: "?s3 = ?s1"
    using some by (simp add: context_unsubscribe_def Let_def n1 Notifier_hasListeners_def)
  show h3: "Notifier_hasListeners (notifier (heap ?s3 a))"
    using some by (simp add: e3 n1 Notifier_hasListeners_def)
  have u3: "update_notifier a (Notifier_unsubscribe cb) ?s1 = ?s1"
    by (rule update_notifier_id) (simp add: n1 Notifier_unsubscribe_def Set_delete_def al)
  have h1: "Notifier_hasListeners (notifier (heap ?s1 a))"
    using h3 by (simp add: e3)
  have e4': "context_unsubscribe store a cb ?s1 = ?s1"
    using h1 by (simp add: context_unsubscribe_def [of store a cb ?s1] Let_def u3)
  show e4: "context_unsubscribe store a cb ?s3 = ?s3"
    by (simp add: e3 e4')
  show "memory (context_unsubscribe store a cb ?s3) = memory s"
    by (simp add: e3 e4' update_notifier_frame)
  show "trace (context_unsubscribe store a cb ?s3) = trace s"
    by (simp add: e3 e4' update_notifier_frame)
  show "notifier (heap (context_unsubscribe store a cb ?s3) a)
           = (notifier (heap s a))\<lparr>listeners := removeAll cb (listeners (notifier (heap s a)))\<rparr>"
    by (simp add: e3 e4' n1)
qed

lemma subscribe_twice_present:
  assumes m: "map_of (memory st) (store_id store) = Some a"
    and al: "alive (notifier (heap st a))"
  shows "fst (context_subscribe store cb st) = a"
    and "fst (context_subscribe store cb (snd (context_subscribe store cb st))) = a"
    and "snd (context_subscribe store cb (snd (context_subscribe store cb st)))
           = snd (context_subscribe store cb st)"
    and "notifier (heap (snd (context_subscribe store cb st)) a)
           = (notifier (heap st a))\<lparr>listeners := Set_add cb (listeners (notifier (heap st a)))\<rparr>"
    and "trace (snd (context_subscribe store cb st)) = trace st"
proof -
  let ?s1 = "update_notifier a (Notifier_subscribe cb) st"
  have c1: "context_subscribe store cb st = (a, ?s1)"
    using getInstance_present [OF m] by (simp add: context_subscribe_def)
  show "fst (context_subscribe store cb st) = a" by (simp add: c1)
  have m1: "map_of (memory ?s1) (store_id store) = Some a"
    by (simp add: update_notifier_frame m)
  have n1: "notifier (heap ?s1 a)
              = (notifier (heap st a))\<lparr>listeners := Set_add cb (listeners (notifier (heap st a)))\<rparr>"
    using al by (simp add: update_notifier_frame Notifier_subscribe_def)
  have u: "update_notifier a (Notifier_subscribe cb) ?s1 = ?s1"
    by (rule update_notifier_id) (simp add: n1 Notifier_subscribe_def Set_add_props al)
  have c2: "context_subscribe store cb ?s1 = (a, ?s1)"
    using getInstance_present [OF m1] by (simp add: context_subscribe_def [of store cb ?s1] u)
  show "fst (context_subscribe store cb (snd (context_subscribe store cb st))) = a"
    by (simp add: c1 c2)
  show "snd (context_subscribe store cb (snd (context_subscribe store cb st)))
           = snd (context_subscribe store cb st)"
    by (simp add: c1 c2)
  show "notifier (heap (snd (context_subscribe store cb st)) a)
           = (notifier (heap st a))\<lparr>listeners := Set_add cb (listeners (notifier (heap st a)))\<rparr>"
    by (simp add: c1 n1)
  show "trace (snd (context_subscribe store cb st)) = trace st"
    by (simp add: c1 update_notifier_frame)
qed

text \<open>
  Claim C10, as stated, fails where the Notifier has another listener: with the
  listener 1 subscribed and registered upstream, two consumers subscribe the callback
  5 and both call their unsubscribe closures. The second call finds \<open>hasListeners()\<close>
  true, as the first did; the entry stays, the Notifier stays alive with the listener
  1, and the store's unsubscribe is not called.
\<close>

theorem duplicate_callback_beside_listener_counterexample:
  "listeners (notifier (heap duplicate_callback 0)) = [1, 5]
   \<and> Notifier_hasListeners
        (notifier (heap (context_unsubscribe storeAdapter 0 5 duplicate_callback) 0))
   \<and> Notifier_hasListeners
        (notifier (heap (context_unsubscribe storeAdapter 0 5
           (context_unsubscribe storeAdapter 0 5 duplicate_callback)) 0))
   \<and> map_of (memory (context_unsubscribe storeAdapter 0 5
           (context_unsubscribe storeAdapter 0 5 duplicate_callback))) (store_id storeAdapter)
       = Some 0
   \<and> alive (notifier (heap (context_unsubscribe storeAdapter 0 5
           (context_unsubscribe storeAdapter 0 5 duplicate_callback)) 0))
   \<and> listeners (notifier (heap (context_unsubscribe storeAdapter 0 5
           (context_unsubscribe storeAdapter 0 5 duplicate_callback)) 0)) = [1]
   \<and> count_list (trace (context_unsubscribe storeAdapter 0 5
           (context_unsubscribe storeAdapter 0 5 duplicate_callback)))
         (StoreUnsubscribe (ref storeAdapter)) = 0"
  by code_simp

text \<open>
  Claim C10, amended. Subscribing one callback twice to a Notifier registers it once:
  \<open>notify\<close> calls it once and one unsubscribe removes it. In the registry, two
  subscriptions of one callback to a store share the instance of the store and leave
  the state of one subscription, whether the entry exists already or is created by
  the first of them. Of the two unsubscribe closures called on a live instance, the
  first removes the callback. When no other listener is left, the first already finds
  \<open>hasListeners()\<close> false and evicts: it calls the teardown the instance holds,
  destroys the Notifier and deletes the entry; the second finds \<open>hasListeners()\<close> false
  on the destroyed Notifier and runs the eviction again, with the held teardown called
  a second time, and the store has no entry afterwards. When another listener is left,
  both find \<open>hasListeners()\<close> true and evict nothing: trace and registry are as before
  and the Notifier has lost the callback only.
\<close>

theorem duplicate_callback_in_registry:
  "Notifier_subscribe l (Notifier_subscribe l n) = Notifier_subscribe l n
   \<and> (alive n \<and> distinct (listeners n) \<longrightarrow>
        count_list (snd (Notifier_notify v (Notifier_subscribe l (Notifier_subscribe l n))))
          (ListenerCall l v v) = 1
        \<and> l \<notin> set (listeners (Notifier_unsubscribe l
                  (Notifier_subscribe l (Notifier_subscribe l n)))))
   \<and> (map_of (memory st) (store_id store) = Some a \<and> alive (notifier (heap st a)) \<longrightarrow>
        fst (context_subscribe store cb st) = a
        \<and> fst (context_subscribe store cb (snd (context_subscribe store cb st))) = a
        \<and> snd (context_subscribe store cb (snd (context_subscribe store cb st)))
            = snd (context_subscribe store cb st)
        \<and> notifier (heap (snd (context_subscribe store cb st)) a)
            = (notifier (heap st a))\<lparr>listeners := Set_add cb (listeners (notifier (heap st a)))\<rparr>)
   \<and> (alive (notifier (heap s a)) \<and> removeAll cb (listeners (notifier (heap s a))) = [] \<longrightarrow>
        context_unsubscribe store a cb s
          = evict store a (update_notifier a (Notifier_unsubscribe cb) s)
        \<and> trace (context_unsubscribe store a cb s)
            = trace s @ teardown_events (unsubscribe (heap s a))
        \<and> map_of (memory (context_unsubscribe store a cb s)) (store_id store) = None
        \<and> \<not> alive (notifier (heap (context_unsubscribe store a cb s) a))
        \<and> \<not> Notifier_hasListeners (notifier (heap (context_unsubscribe store a cb s) a))
        \<and> context_unsubscribe store a cb (context_unsubscribe store a cb s)
            = evict store a (context_unsubscribe store a cb s)
        \<and> trace (context_unsubscribe store a cb (context_unsubscribe store a cb s))
            = trace s @ teardown_events (unsubscribe (heap s a))
                @ teardown_events (unsubscribe (heap s a))
        \<and> map_of (memory (context_unsubscribe store a cb (context_unsubscribe store a cb s)))
             (store_id store) = None)
   \<and> (alive (notifier (heap s a)) \<and> removeAll cb (listeners (notifier (heap s a))) \<noteq> [] \<longrightarrow>
        context_unsubscribe store a cb s = update_notifier a (Notifier_unsubscribe cb) s
        \<and> Notifier_hasListeners (notifier (heap (context_unsubscribe store a cb s) a))
        \<and> context_unsubscribe store a cb (context_unsubscribe store a cb s)
            = context_unsubscribe store a cb s
        \<and> memory (context_unsubscribe store a cb (context_unsubscribe store a cb s)) = memory s
        \<and> trace (context_unsubscribe store a cb (context_unsubscribe store a cb s)) = trace s
        \<and> notifier (heap (context_unsubscribe store a cb (context_unsubscribe store a cb s)) a)
            = (notifier (heap s a))\<lparr>listeners := removeAll cb (listeners (notifier (heap s a)))\<rparr>)
   \<and> (isMounted st \<and> map_of (memory st) (store_id store) = None \<longrightarrow>
        fst (context_subscribe store cb st) = nextAddr st
        \<and> fst (context_subscribe store cb (snd (context_subscribe store cb st))) = nextAddr st
        \<and> listeners (notifier (heap (snd (context_subscribe store cb
              (snd (context_subscribe store cb st)))) (nextAddr st))) = [cb])"
proof -
  have a: "Notifier_subscribe l (Notifier_subscribe l n) = Notifier_subscribe l n"
    by (simp add: Notifier_subscribe_def Set_add_props)
  have b: "alive n \<and> distinct (listeners n) \<longrightarrow>
        count_list (snd (Notifier_notify v (Notifier_subscribe l (Notifier_subscribe l n))))
          (ListenerCall l v v) = 1
        \<and> l \<notin> set (listeners (Notifier_unsubscribe l
                  (Notifier_subscribe l (Notifier_subscribe l n))))"
    by (simp add: a Notifier_subscribe_def Notifier_unsubscribe_def Notifier_notify_def
        Set_add_props count_calls_distinct)
  note c = subscribe_twice_present [of st store a cb]
  note d = unsubscribe_evicts [of s a cb store]
  note e = unsubscribe_keeps [of s a cb store]
  have f: "isMounted st \<and> map_of (memory st) (store_id store) = None \<longrightarrow>
        fst (context_subscribe store cb st) = nextAddr st
        \<and> fst (context_subscribe store cb (snd (context_subscribe store cb st))) = nextAddr st
        \<and> listeners (notifier (heap (snd (context_subscribe store cb
              (snd (context_subscribe store cb st)))) (nextAddr st))) = [cb]"
    using duplicate_callback_registered_once [of st store cb v]
    unfolding Let_def by blast
  have g: "map_of (memory st) (store_id store) = Some a \<and> alive (notifier (heap st a)) \<longrightarrow>
        fst (context_subscribe store cb st) = a
        \<and> fst (context_subscribe store cb (snd (context_subscribe store cb st))) = a
        \<and> snd (context_subscribe store cb (snd (context_subscribe store cb st)))
            = snd (context_subscribe store cb st)
        \<and> notifier (heap (snd (context_subscribe store cb st)) a)
            = (notifier (heap st a))\<lparr>listeners := Set_add cb (listeners (notifier (heap st a)))\<rparr>"
    using c(1) c(2) c(3) c(4) by (intro impI conjI; elim conjE)
  have h: "alive (notifier (heap s a)) \<and> removeAll cb (listeners (notifier (heap s a))) = [] \<longrightarrow>
        context_unsubscribe store a cb s
          = evict store a (update_notifier a (Notifier_unsubscribe cb) s)
        \<and> trace (context_unsubscribe store a cb s)
            = trace s @ teardown_events (unsubscribe (heap s a))
        \<and> map_of (memory (context_unsubscribe store a cb s)) (store_id store) = None
        \<and> \<not> alive (notifier (heap (context_unsubscribe store a cb s) a))
        \<and> \<not> Notifier_hasListeners (notifier (heap (context_unsubscribe store a cb s) a))
        \<and> context_unsubscribe store a cb (context_unsubscribe store a cb s)
            = evict store a (context_unsubscribe store a cb s)
        \<and> trace (context_unsubscribe store a cb (context_unsubscribe store a cb s))
            = trace s @ teardown_events (unsubscribe (heap s a))
                @ teardown_events (unsubscribe (heap s a))
        \<and> map_of (memory (context_unsubscribe store a cb (context_unsubscribe store a cb s)))
             (store_id store) = None"
    using d(1) d(5) d(2) d(3) d(4) d(6) d(7) d(8) by (intro impI conjI; elim conjE)
  have k: "alive (notifier (heap s a)) \<and> removeAll cb (listeners (notifier (heap s a))) \<noteq> [] \<longrightarrow>
        context_unsubscribe store a cb s = update_notifier a (Notifier_unsubscribe cb) s
        \<and> Notifier_hasListeners (notifier (heap (context_unsubscribe store a cb s) a))
        \<and> context_unsubscribe store a cb (context_unsubscribe store a cb s)
            = context_unsubscribe store a cb s
        \<and> memory (context_unsubscribe store a cb (context_unsubscribe store a cb s)) = memory s
        \<and> trace (context_unsubscribe store a cb (context_unsubscribe store a cb s)) = trace s
        \<and> notifier (heap (context_unsubscribe store a cb (context_unsubscribe store a cb s)) a)
            = (notifier (heap s a))\<lparr>listeners := removeAll cb (listeners (notifier (heap s a)))\<rparr>"
    using e(1) e(2) e(3) e(4) e(5) e(6) by (intro impI conjI; elim conjE)
  show ?thesis
    by (rule conjI [OF a conjI [OF b conjI [OF g conjI [OF h conjI [OF k f]]]]])
qed

theorem duplicate_callback_in_registry_witness:
  "alive (Notifier_new Null) \<and> distinct (listeners (Notifier_new Null))
   \<and> snd (Notifier_notify (Boolean True)
            (Notifier_subscribe 5 (Notifier_subscribe 5 (Notifier_new Null))))
       = [ListenerCall 5 (Boolean True) (Boolean True)]
   \<and> map_of (memory (snd (context_read storeAdapter mounted_root))) (store_id storeAdapter) = Some 0
   \<and> alive (notifier (heap (snd (context_read storeAdapter mounted_root)) 0))
   \<and> listeners (notifier (heap (snd (context_subscribe storeAdapter 5
         (snd (context_subscribe storeAdapter 5 (snd (context_read storeAdapter mounted_root)))))) 0))
       = [5]
   \<and> alive (notifier (heap same_callback_consumers 0))
   \<and> removeAll 5 (listeners (notifier (heap same_callback_consumers 0))) = []
   \<and> map_of (memory (context_unsubscribe storeAdapter 0 5 same_callback_consumers))
         (store_id storeAdapter) = None
   \<and> trace (context_unsubscribe storeAdapter 0 5
         (context_unsubscribe storeAdapter 0 5 same_callback_consumers))
       = trace same_callback_consumers @ [StoreUnsubscribe 0, StoreUnsubscribe 0]
   \<and> alive (notifier (heap duplicate_callback 0))
   \<and> removeAll 5 (listeners (notifier (heap duplicate_callback 0))) \<noteq> []
   \<and> memory (context_unsubscribe storeAdapter 0 5
         (context_unsubscribe storeAdapter 0 5 duplicate_callback)) = memory duplicate_callback
   \<and> isMounted mounted_root \<and> map_of (memory mounted_root) (store_id storeAdapter) = None
   \<and> listeners (notifier (heap (snd (context_subscribe storeAdapter 5
         (snd (context_subscribe storeAdapter 5 mounted_root)))) (nextAddr mounted_root))) = [5]"
proof -
  have n: "alive (Notifier_new Null)" "distinct (listeners (Notifier_new Null))"
    by (simp_all add: Notifier_new_def)
  have c: "snd (Notifier_notify (Boolean True)
            (Notifier_subscribe 5 (Notifier_subscribe 5 (Notifier_new Null))))
       = [ListenerCall 5 (Boolean True) (Boolean True)]"
    by (simp add: Notifier_new_def Notifier_subscribe_def Notifier_notify_def Set_add_def)
  have p1: "map_of (memory (snd (context_read storeAdapter mounted_root))) (store_id storeAdapter)
              = Some 0"
    by code_simp
  have p2: "alive (notifier (heap (snd (context_read storeAdapter mounted_root)) 0))"
    by code_simp
  have p3: "listeners (notifier (heap (snd (context_read storeAdapter mounted_root)) 0)) = []"
    by code_simp
  have q1: "alive (notifier (heap same_callback_consumers 0))" by code_simp
  have q2: "removeAll 5 (listeners (notifier (heap same_callback_consumers 0))) = []"
    by code_simp
  have q3: "unsubscribe (heap same_callback_consumers 0) = Some (Teardown 0 1)" by code_simp
  have r1: "alive (notifier (heap duplicate_callback 0))" by code_simp
  have r2: "removeAll 5 (listeners (notifier (heap duplicate_callback 0))) \<noteq> []" by code_simp
  have m: "isMounted mounted_root" "map_of (memory mounted_root) (store_id storeAdapter) = None"
    by (simp_all add: mounted_root_def StoreAdapterRoot_def no_root_def)
  note T1 = duplicate_callback_in_registry
              [of 5 "Notifier_new Null" "Boolean True" "snd (context_read storeAdapter mounted_root)"
                  storeAdapter 0 5 same_callback_consumers]
  note T2 = duplicate_callback_in_registry
              [of 5 "Notifier_new Null" "Boolean True" mounted_root storeAdapter 0 5 duplicate_callback]
  from T1 p1 p2 have s1: "snd (context_subscribe storeAdapter 5
         (snd (context_subscribe storeAdapter 5 (snd (context_read storeAdapter mounted_root)))))
       = snd (context_subscribe storeAdapter 5 (snd (context_read storeAdapter mounted_root)))"
    by blast
  from T1 p1 p2 have s2: "notifier (heap (snd (context_subscribe storeAdapter 5
           (snd (context_read storeAdapter mounted_root)))) 0)
       = (notifier (heap (snd (context_read storeAdapter mounted_root)) 0))
           \<lparr>listeners := Set_add 5 (listeners (notifier (heap (snd (context_read storeAdapter mounted_root)) 0)))\<rparr>"
    by blast
  have s3: "listeners (notifier (heap (snd (context_subscribe storeAdapter 5
         (snd (context_subscribe storeAdapter 5 (snd (context_read storeAdapter mounted_root)))))) 0))
       = [5]"
    by (simp add: s1 s2 p3 Set_add_def)
  from T1 q1 q2 have u1: "map_of (memory (context_unsubscribe storeAdapter 0 5 same_callback_consumers))
         (store_id storeAdapter) = None"
    by blast
  from T1 q1 q2 have u2: "trace (context_unsubscribe storeAdapter 0 5
         (context_unsubscribe storeAdapter 0 5 same_callback_consumers))
       = trace same_callback_consumers @ teardown_events (unsubscribe (heap same_callback_consumers 0))
           @ teardown_events (unsubscribe (heap same_callback_consumers 0))"
    by blast
  have u2': "trace (context_unsubscribe storeAdapter 0 5
         (context_unsubscribe storeAdapter 0 5 same_callback_consumers))
       = trace same_callback_consumers @ [StoreUnsubscribe 0, StoreUnsubscribe 0]"
    by (simp add: u2 q3)
  from T2 r1 r2 have k1: "memory (context_unsubscribe storeAdapter 0 5
         (context_unsubscribe storeAdapter 0 5 duplicate_callback)) = memory duplicate_callback"
    by blast
  from T2 m have f1: "listeners (notifier (heap (snd (context_subscribe storeAdapter 5
         (snd (context_subscribe storeAdapter 5 mounted_root)))) (nextAddr mounted_root))) = [5]"
    by blast
  from n c p1 p2 s3 q1 q2 u1 u2' r1 r2 k1 m f1 show ?thesis by blast
qed

section \<open>Registration of one store by several consumers\<close>

text \<open>
  Claim C1. In \<open>src/StoreAdapter.tsx\<close> two consumers of one store enqueue the store
  twice, and the flush calls the store's \<open>subscribe\<close> twice: the instance keeps the
  second teardown only, so after both consumers have unsubscribed the store's
  unsubscribe has run once and the first upstream subscription is still in place.
\<close>

theorem registering_twice_subscribes_upstream_twice:
  "count_list (trace (flushPendingStores (two_consumers storeAdapter)))
     (StoreSubscribe (ref storeAdapter)) = 2
   \<and> unsubscribe (heap (flushPendingStores (two_consumers storeAdapter)) 0)
       = Some (Teardown (ref storeAdapter) 1)
   \<and> count_list (trace (two_consumers_gone storeAdapter)) (StoreUnsubscribe (ref storeAdapter)) = 1
   \<and> map fst (upstream (two_consumers_gone storeAdapter)) = [0]"
  by code_simp

text \<open>
  The scoped-model variant guards the registration with its set \<open>registered\<close> and
  subscribes once.
\<close>

lemma scoped_registers_once:
  "count_list (trace (flushPendingStores_scoped (runAllTimers (two_consumers_scoped storeAdapter))))
     (StoreSubscribe (ref storeAdapter)) = 1"
  by code_simp

section \<open>keepAlive\<close>

text \<open>
  Claim C2, as stated, fails on \<open>src/StoreAdapter.tsx\<close>, which reads no \<open>keepAlive\<close>:
  when the only consumer of a descriptor that carries \<open>keepAlive: true\<close> unsubscribes,
  the store's unsubscribe is called, the Notifier is destroyed and the entry is
  removed, and the next read seeds a new Notifier from \<open>read()\<close>.
\<close>

theorem keepAlive_not_read_counterexample:
  "keepAlive keepAliveStore
   \<and> memory (one_consumer keepAliveStore) = [(store_id keepAliveStore, 0)]
   \<and> listeners (notifier (heap (one_consumer keepAliveStore) 0)) = [1]
   \<and> count_list (trace (context_unsubscribe keepAliveStore 0 1 (one_consumer keepAliveStore)))
        (StoreUnsubscribe (ref keepAliveStore)) = 1
   \<and> \<not> alive (notifier (heap (context_unsubscribe keepAliveStore 0 1 (one_consumer keepAliveStore)) 0))
   \<and> memory (context_unsubscribe keepAliveStore 0 1 (one_consumer keepAliveStore)) = []
   \<and> Notifier_read (notifier (heap (context_unsubscribe keepAliveStore 0 1 (one_consumer keepAliveStore)) 0))
        = Number PlusZero
   \<and> fst (context_read keepAliveStore (dispatch 0 (Number (Finite 1))
        (context_unsubscribe keepAliveStore 0 1 (one_consumer keepAliveStore)))) = Number (Finite 1)"
  by code_simp

text \<open>
  Claim C2, amended. In the scoped-model variant of the registry, for a descriptor with
  \<open>keepAlive: true\<close> that has an entry, the unsubscribe closure of a consumer only
  removes the listener: the store's unsubscribe is not called, the Notifier keeps its
  liveness and the entry stays, so a later read or subscription under the same id uses
  the same instance and its stored value, without calling \<open>read()\<close>. The registry of
  \<open>src/StoreAdapter.tsx\<close> evicts whenever no listener is left.
\<close>

theorem keepAlive_retains_entry_in_scoped_variant:
  "keepAlive store \<Longrightarrow> map_of (memory st) (store_id store) = Some a \<Longrightarrow>
   (let st' = context_unsubscribe_scoped store a cb st
    in st' = update_notifier a (Notifier_unsubscribe cb) st
       \<and> trace st' = trace st
       \<and> upstream st' = upstream st
       \<and> alive (notifier (heap st' a)) = alive (notifier (heap st a))
       \<and> memory st' = memory st
       \<and> context_read_scoped store st' = (Notifier_read (notifier (heap st a)), st')
       \<and> fst (context_subscribe_scoped store cb' st') = a)
   \<and> (\<not> Notifier_hasListeners (Notifier_unsubscribe cb (notifier (heap st a))) \<longrightarrow>
        context_unsubscribe store a cb st
          = evict store a (update_notifier a (Notifier_unsubscribe cb) st))"
proof -
  assume k: "keepAlive store" and m: "map_of (memory st) (store_id store) = Some a"
  define st' where "st' = context_unsubscribe_scoped store a cb st"
  have e: "st' = update_notifier a (Notifier_unsubscribe cb) st"
    using k by (simp add: st'_def context_unsubscribe_scoped_def Let_def)
  have t: "trace st' = trace st" and u: "upstream st' = upstream st"
    and mem: "memory st' = memory st"
    by (simp_all add: e update_notifier_def)
  have al: "alive (notifier (heap st' a)) = alive (notifier (heap st a))"
    by (simp add: e update_notifier_def Notifier_unsubscribe_def)
  have g: "getInstance_scoped store st' = (a, st')"
    using m by (simp add: getInstance_scoped_def mem)
  have v: "val (notifier (heap st' a)) = val (notifier (heap st a))"
    by (simp add: e update_notifier_def Notifier_unsubscribe_def)
  have r: "context_read_scoped store st' = (Notifier_read (notifier (heap st a)), st')"
    by (simp add: context_read_scoped_def g Notifier_read_def v)
  have s: "fst (context_subscribe_scoped store cb' st') = a"
    by (simp add: context_subscribe_scoped_def g)
  have x: "\<not> Notifier_hasListeners (Notifier_unsubscribe cb (notifier (heap st a))) \<longrightarrow>
        context_unsubscribe store a cb st
          = evict store a (update_notifier a (Notifier_unsubscribe cb) st)"
    by (simp add: context_unsubscribe_def Let_def update_notifier_frame)
  from e t u al mem r s x show ?thesis
    unfolding Let_def st'_def by blast
qed

theorem keepAlive_retains_entry_in_scoped_variant_witness:
  "keepAlive keepAliveStore
   \<and> map_of (memory (one_consumer_scoped keepAliveStore)) (store_id keepAliveStore) = Some 0
   \<and> listeners (notifier (heap (one_consumer_scoped keepAliveStore) 0)) = [1]
   \<and> trace (context_unsubscribe_scoped keepAliveStore 0 1 (one_consumer_scoped keepAliveStore))
       = [StoreRead 0, StoreSubscribe 0, StoreRead 0]
   \<and> memory (context_unsubscribe_scoped keepAliveStore 0 1 (one_consumer_scoped keepAliveStore))
       = [(''Store-0'', 0)]
   \<and> fst (context_read_scoped keepAliveStore
        (context_unsubscribe_scoped keepAliveStore 0 1 (one_consumer_scoped keepAliveStore)))
       = Number PlusZero"
proof -
  have k: "keepAlive keepAliveStore" by code_simp
  have m: "map_of (memory (one_consumer_scoped keepAliveStore)) (store_id keepAliveStore) = Some 0"
    by code_simp
  have l: "listeners (notifier (heap (one_consumer_scoped keepAliveStore) 0)) = [1]"
    by code_simp
  have t: "trace (one_consumer_scoped keepAliveStore) = [StoreRead 0, StoreSubscribe 0, StoreRead 0]"
    by code_simp
  have mm: "memory (one_consumer_scoped keepAliveStore) = [(''Store-0'', 0)]"
    by code_simp
  have v: "Notifier_read (notifier (heap (one_consumer_scoped keepAliveStore) 0)) = Number PlusZero"
    by code_simp
  note T = keepAlive_retains_entry_in_scoped_variant [OF k m, of 1 2, unfolded Let_def]
  from T have t': "trace (context_unsubscribe_scoped keepAliveStore 0 1 (one_consumer_scoped keepAliveStore))
       = trace (one_consumer_scoped keepAliveStore)" by blast
  from T have m': "memory (context_unsubscribe_scoped keepAliveStore 0 1 (one_consumer_scoped keepAliveStore))
       = memory (one_consumer_scoped keepAliveStore)" by blast
  from T have r': "fst (context_read_scoped keepAliveStore
        (context_unsubscribe_scoped keepAliveStore 0 1 (one_consumer_scoped keepAliveStore)))
       = Notifier_read (notifier (heap (one_consumer_scoped keepAliveStore) 0))"
    by (metis fst_conv)
  from k m l t' m' r' t mm v show ?thesis by simp
qed

end
